theory Spec2Isabelle
  imports Complex_Main
begin

section \<open>Go strings\<close>

text \<open>
  A Go \<^verbatim>\<open>string\<close> is a sequence of bytes, here a \<^typ>\<open>string\<close> (a list of
  8-bit \<^typ>\<open>char\<close>). The functions of package \<^verbatim>\<open>strings\<close> that
  \<^verbatim>\<open>copilot_transport.go\<close> and the tests call are modelled on bytes.
\<close>

text \<open>\<^verbatim>\<open>c < utf8.RuneSelf\<close> for every byte: the test \<^verbatim>\<open>strings.ToLower\<close> starts with.\<close>

definition isASCII :: "string \<Rightarrow> bool" where
  "isASCII s = list_all (\<lambda>c. (of_char c :: nat) < 128) s"

definition isUpperByte :: "char \<Rightarrow> bool" where
  "isUpperByte c = ((65::nat) \<le> of_char c \<and> (of_char c :: nat) \<le> 90)"

definition isLowerByte :: "char \<Rightarrow> bool" where
  "isLowerByte c = ((97::nat) \<le> of_char c \<and> (of_char c :: nat) \<le> 122)"

text \<open>\<^verbatim>\<open>if 'A' <= c && c <= 'Z' { c += 'a' - 'A' }\<close>\<close>

definition lowerByte :: "char \<Rightarrow> char" where
  "lowerByte c = (if isUpperByte c then char_of ((of_char c :: nat) + 32) else c)"

text \<open>\<^verbatim>\<open>if 'a' <= c && c <= 'z' { c -= 'a' - 'A' }\<close>\<close>

definition upperByte :: "char \<Rightarrow> char" where
  "upperByte c = (if isLowerByte c then char_of ((of_char c :: nat) - 32) else c)"

text \<open>
  \<^verbatim>\<open>utf8.DecodeRuneInString\<close>: the rune at the start of a string and the number of
  bytes it takes, and \<^verbatim>\<open>(RuneError, 1)\<close>, that is \<open>(0xFFFD, 1)\<close>, when the bytes are
  not the encoding of a rune. \<open>leadSize\<close> is the size that the table \<^verbatim>\<open>first\<close> of
  package \<^verbatim>\<open>utf8\<close> gives for a leading byte (0 for a byte that cannot lead), and
  \<open>acceptLo\<close> and \<open>acceptHi\<close> are the bounds of \<^verbatim>\<open>acceptRanges\<close> for the second
  byte. The masks \<^verbatim>\<open>s0&mask2\<close>, \<^verbatim>\<open>s0&mask3\<close>, \<^verbatim>\<open>s0&mask4\<close> and \<^verbatim>\<open>s&maskx\<close> are
  the remainders modulo 32, 16, 8 and 64, the shifts are multiplications, and the
  shifted parts have no bit in common, so that \<^verbatim>\<open>|\<close> is addition.
\<close>

definition leadSize :: "nat \<Rightarrow> nat" where
  "leadSize s0 =
     (if s0 < 128 then 1
      else if s0 < 194 then 0
      else if s0 < 224 then 2
      else if s0 < 240 then 3
      else if s0 < 245 then 4
      else 0)"

definition acceptLo :: "nat \<Rightarrow> nat" where
  "acceptLo s0 = (if s0 = 224 then 160 else if s0 = 240 then 144 else 128)"

definition acceptHi :: "nat \<Rightarrow> nat" where
  "acceptHi s0 = (if s0 = 237 then 159 else if s0 = 244 then 143 else 191)"

definition RuneError :: nat where
  "RuneError = 65533"

fun DecodeRuneInString :: "string \<Rightarrow> nat \<times> nat" where
  "DecodeRuneInString [] = (RuneError, 0)"
| "DecodeRuneInString (c # cs) =
     (let s0 = (of_char c :: nat) in
      if s0 < 128 then (s0, 1)
      else if leadSize s0 = 0 then (RuneError, 1)
      else if length (c # cs) < leadSize s0 then (RuneError, 1)
      else
        let s1 = (of_char (cs ! 0) :: nat) in
        if s1 < acceptLo s0 \<or> acceptHi s0 < s1 then (RuneError, 1)
        else if leadSize s0 \<le> 2 then (s0 mod 32 * 64 + s1 mod 64, 2)
        else
          let s2 = (of_char (cs ! 1) :: nat) in
          if s2 < 128 \<or> 191 < s2 then (RuneError, 1)
          else if leadSize s0 \<le> 3
          then (s0 mod 16 * 4096 + s1 mod 64 * 64 + s2 mod 64, 3)
          else
            let s3 = (of_char (cs ! 2) :: nat) in
            if s3 < 128 \<or> 191 < s3 then (RuneError, 1)
            else (s0 mod 8 * 262144 + s1 mod 64 * 4096 + s2 mod 64 * 64 + s3 mod 64, 4))"

text \<open>
  \<^verbatim>\<open>utf8.AppendRune\<close>, which \<^verbatim>\<open>Builder.WriteRune\<close> calls: the encoding of a rune, and
  the encoding of \<^verbatim>\<open>RuneError\<close> for a surrogate or a value beyond \<^verbatim>\<open>MaxRune\<close>.
\<close>

definition AppendRune :: "nat \<Rightarrow> string" where
  "AppendRune r =
     (if r < 128 then [char_of r]
      else if r < 2048 then [char_of (192 + r div 64), char_of (128 + r mod 64)]
      else if 1114111 < r \<or> (55296 \<le> r \<and> r \<le> 57343)
      then [CHR 0xEF, CHR 0xBF, CHR 0xBD]
      else if r < 65536
      then [char_of (224 + r div 4096), char_of (128 + r div 64 mod 64), char_of (128 + r mod 64)]
      else [char_of (240 + r div 262144), char_of (128 + r div 4096 mod 64),
            char_of (128 + r div 64 mod 64), char_of (128 + r mod 64)])"

text \<open>
  \<^verbatim>\<open>unicode.ToLower\<close>. On ASCII it is the lower case of the letters \<^verbatim>\<open>A\<close>..\<^verbatim>\<open>Z\<close>.
  Beyond ASCII it is given by the case tables of the Go distribution, in which exactly
  two runes have an ASCII lower case: U+0130 (capital I with dot above) has \<^verbatim>\<open>i\<close>, and
  U+212A (the Kelvin sign) has \<^verbatim>\<open>k\<close>. The rest of the tables is the parameter
  \<open>caseTable\<close>, of which nothing more is used than that: where the parameter would give
  an ASCII rune the rune is kept.
\<close>

definition unicodeToLower :: "(nat \<Rightarrow> nat) \<Rightarrow> nat \<Rightarrow> nat" where
  "unicodeToLower caseTable r =
     (if r < 128 then (if 65 \<le> r \<and> r \<le> 90 then r + 32 else r)
      else if r = 304 then 105
      else if r = 8490 then 107
      else if caseTable r < 128 then r
      else caseTable r)"

text \<open>
  \<^verbatim>\<open>strings.Map(unicode.ToLower, s)\<close>: the runes of \<open>s\<close>, as \<^verbatim>\<open>range s\<close> yields them,
  each mapped and written to the result; a byte that starts no rune is \<^verbatim>\<open>RuneError\<close> of
  width 1. (Go copies an unchanged prefix of \<open>s\<close> as it is, which is what encoding
  its runes again gives.)
\<close>

fun MapToLower :: "(nat \<Rightarrow> nat) \<Rightarrow> string \<Rightarrow> string" where
  "MapToLower caseTable [] = []"
| "MapToLower caseTable (c # cs) =
     AppendRune (unicodeToLower caseTable (fst (DecodeRuneInString (c # cs))))
       @ MapToLower caseTable (drop (snd (DecodeRuneInString (c # cs)) - 1) cs)"

text \<open>
  \<^verbatim>\<open>strings.ToLower\<close>: on a string of ASCII bytes only, every byte \<^verbatim>\<open>A\<close>..\<^verbatim>\<open>Z\<close>
  is replaced by its lower-case letter and every other byte is kept; on any other string
  Go returns \<^verbatim>\<open>Map(unicode.ToLower, s)\<close>.
\<close>

definition ToLower :: "(nat \<Rightarrow> nat) \<Rightarrow> string \<Rightarrow> string" where
  "ToLower caseTable s = (if isASCII s then map lowerByte s else MapToLower caseTable s)"

text \<open>\<^verbatim>\<open>strings.HasPrefix(s, prefix)\<close>\<close>

fun HasPrefix :: "string \<Rightarrow> string \<Rightarrow> bool" where
  "HasPrefix s [] = True"
| "HasPrefix [] (p # ps) = False"
| "HasPrefix (c # cs) (p # ps) = (c = p \<and> HasPrefix cs ps)"

text \<open>
  \<^verbatim>\<open>strings.Index(s, substr)\<close>: the index of the first instance of \<open>substr\<close> in
  \<open>s\<close>, or \<open>-1\<close> if there is none.
\<close>

fun Index :: "string \<Rightarrow> string \<Rightarrow> int" where
  "Index [] substr = (if substr = [] then 0 else - 1)"
| "Index (c # cs) substr =
     (if HasPrefix (c # cs) substr then 0
      else (let i = Index cs substr in if i < 0 then - 1 else i + 1))"

text \<open>\<^verbatim>\<open>func Contains(s, substr string) bool { return Index(s, substr) >= 0 }\<close>\<close>

definition Contains :: "string \<Rightarrow> string \<Rightarrow> bool" where
  "Contains s substr = (Index s substr \<ge> 0)"



section \<open>The endpoint classifier\<close>

text \<open>
  \<^verbatim>\<open>copilot_transport.go\<close>, lines 28-30:
  \<^verbatim>\<open>return strings.Contains(strings.ToLower(url), "api.githubcopilot.com")\<close>
\<close>

definition isGitHubCopilotURL :: "(nat \<Rightarrow> nat) \<Rightarrow> string \<Rightarrow> bool" where
  "isGitHubCopilotURL caseTable url =
     Contains (ToLower caseTable url) ''api.githubcopilot.com''"


subsection \<open>What the specification asks of the classifier\<close>






section \<open>The header-injecting transport\<close>

subsection \<open>Headers of \<^verbatim>\<open>net/http\<close>\<close>

text \<open>
  \<^verbatim>\<open>type Header map[string][]string\<close>. A Go map is a reference to a mutable object, so
  the maps live in a heap and a request holds the address of its header map;
  \<open>None\<close> is the nil map.
\<close>

type_synonym header = "string \<rightharpoonup> string list"

type_synonym addr = nat

text \<open>
  The fields of \<^verbatim>\<open>http.Request\<close>: \<open>Header\<close> is the one \<open>RoundTrip\<close> touches,
  \<open>Body\<close> is shared between a request and its clone, and \<open>Method\<close> and \<open>Host\<close>
  stand for the fields that \<^verbatim>\<open>Clone\<close> copies by value.
\<close>

record Request =
  Method :: string
  Host :: string
  Header :: "addr option"
  Body :: "addr option"

text \<open>
  The heap: the request objects and the header maps allocated so far. An address is an
  index into the list of its kind, and allocation appends, so that a new object never
  has the address of a live one.
\<close>

record heap =
  requests :: "Request list"
  headers :: "header list"

text \<open>
  The run-time faults of Go that these few lines can meet. \<open>Dangling\<close> stands for a
  reference to no object, which no state of a Go program contains.
\<close>

datatype fault = NilPointerDereference | NilMapAssignment | Dangling

definition load_request :: "heap \<Rightarrow> addr \<Rightarrow> fault + Request" where
  "load_request h p =
     (if p < length (requests h) then Inr (requests h ! p) else Inl NilPointerDereference)"

text \<open>
  A request as the contract of \<^verbatim>\<open>http.RoundTripper\<close> hands it over ("the Request's
  URL and Header fields must be initialized"): a live request object whose header is a
  live map.
\<close>

definition live_request :: "heap \<Rightarrow> addr \<Rightarrow> bool" where
  "live_request h req =
     (req < length (requests h) \<and>
      (case Header (requests h ! req) of
         None \<Rightarrow> False
       | Some a \<Rightarrow> a < length (headers h)))"

text \<open>
  \<^verbatim>\<open>validHeaderFieldByte\<close> of \<^verbatim>\<open>net/textproto\<close>: the token characters of RFC 7230,
  that is letters, digits and \<^verbatim>\<open>! # $ % & ' * + - . ^ _ ` | ~\<close>.
\<close>

definition validHeaderFieldByte :: "char \<Rightarrow> bool" where
  "validHeaderFieldByte c =
     (isUpperByte c \<or> isLowerByte c \<or>
      ((48::nat) \<le> of_char c \<and> (of_char c :: nat) \<le> 57) \<or>
      (of_char c :: nat) \<in> set [33, 35, 36, 37, 38, 39, 42, 43, 45, 46, 94, 95, 96, 124, 126])"

text \<open>
  The loop of \<^verbatim>\<open>canonicalMIMEHeaderKey\<close>: the first letter and every letter after a
  dash in upper case, every other letter in lower case.
\<close>

fun canonicalize :: "bool \<Rightarrow> string \<Rightarrow> string" where
  "canonicalize upper [] = []"
| "canonicalize upper (c # cs) =
     (let c' = (if upper \<and> isLowerByte c then upperByte c
                else if \<not> upper \<and> isUpperByte c then lowerByte c
                else c)
      in c' # canonicalize (c' = CHR ''-'') cs)"

text \<open>
  \<^verbatim>\<open>textproto.CanonicalMIMEHeaderKey\<close>: a key with a byte that is not a token
  character (a space among them) is returned unchanged.
\<close>

definition CanonicalMIMEHeaderKey :: "string \<Rightarrow> string" where
  "CanonicalMIMEHeaderKey s = (if list_all validHeaderFieldByte s then canonicalize True s else s)"

text \<open>
  \<^verbatim>\<open>Header.Set(key, value)\<close>, that is
  \<^verbatim>\<open>h[CanonicalMIMEHeaderKey(key)] = []string{value}\<close>: it replaces every value of the
  key, and it panics on the nil map.
\<close>

definition Header_Set :: "heap \<Rightarrow> addr option \<Rightarrow> string \<Rightarrow> string \<Rightarrow> fault + heap" where
  "Header_Set h hdr key val =
     (case hdr of
        None \<Rightarrow> Inl NilMapAssignment
      | Some a \<Rightarrow>
          if a < length (headers h)
          then Inr (h\<lparr>headers := (headers h)[a := (headers h ! a)(CanonicalMIMEHeaderKey key \<mapsto> [val])]\<rparr>)
          else Inl Dangling)"


text \<open>
  \<^verbatim>\<open>Header.Clone()\<close>: nil for the nil map, and otherwise a new map with the same
  keys and copies of their values.
\<close>

definition Header_Clone :: "heap \<Rightarrow> addr option \<Rightarrow> fault + (addr option \<times> heap)" where
  "Header_Clone h hdr =
     (case hdr of
        None \<Rightarrow> Inr (None, h)
      | Some a \<Rightarrow>
          if a < length (headers h)
          then Inr (Some (length (headers h)), h\<lparr>headers := headers h @ [headers h ! a]\<rparr>)
          else Inl Dangling)"

text \<open>
  \<^verbatim>\<open>Request.Clone(ctx)\<close>: a new request object, a copy of the receiver's fields
  but for the header, which is a clone of the receiver's.
\<close>

definition Request_Clone :: "heap \<Rightarrow> addr \<Rightarrow> fault + (addr \<times> heap)" where
  "Request_Clone h req =
     (case load_request h req of
        Inl f \<Rightarrow> Inl f
      | Inr r \<Rightarrow>
          (case Header_Clone h (Header r) of
             Inl f \<Rightarrow> Inl f
           | Inr (hdr', h1) \<Rightarrow>
               Inr (length (requests h1), h1\<lparr>requests := requests h1 @ [r\<lparr>Header := hdr'\<rparr>]\<rparr>)))"

subsection \<open>\<^verbatim>\<open>CopilotTransport\<close>\<close>

text \<open>
  \<^verbatim>\<open>type CopilotTransport struct { base http.RoundTripper }\<close>. An
  \<^verbatim>\<open>http.RoundTripper\<close> is whatever executes a request: a function of the heap and
  the request's address. Its outcome, Go's pair \<^verbatim>\<open>(*http.Response, error)\<close> together
  with whatever else it leaves behind, is the type parameter \<open>'r\<close>.
\<close>

record 'r CopilotTransport =
  base :: "heap \<Rightarrow> addr \<Rightarrow> 'r"

text \<open>
  \<^verbatim>\<open>NewCopilotTransport\<close>, lines 12-17; \<open>DefaultTransport\<close> is
  \<^verbatim>\<open>http.DefaultTransport\<close> and \<open>None\<close> is the nil interface value.
\<close>

definition NewCopilotTransport ::
    "(heap \<Rightarrow> addr \<Rightarrow> 'r) \<Rightarrow> (heap \<Rightarrow> addr \<Rightarrow> 'r) option \<Rightarrow> 'r CopilotTransport" where
  "NewCopilotTransport DefaultTransport b =
     \<lparr>base = (case b of None \<Rightarrow> DefaultTransport | Some rt \<Rightarrow> rt)\<rparr>"

text \<open>
  \<^verbatim>\<open>RoundTrip\<close>, lines 20-25:
  \<^verbatim>\<open>newReq := req.Clone(req.Context())\<close>,
  \<^verbatim>\<open>newReq.Header.Set("X-GitHub-Api-Version", "2023-05-01")\<close>,
  \<^verbatim>\<open>return t.base.RoundTrip(newReq)\<close>.
  The result is a fault of the Go run time, or what the underlying executor returned.
\<close>

definition RoundTrip :: "'r CopilotTransport \<Rightarrow> heap \<Rightarrow> addr \<Rightarrow> fault + 'r" where
  "RoundTrip t h req =
     (case Request_Clone h req of
        Inl f \<Rightarrow> Inl f
      | Inr (newReq, h1) \<Rightarrow>
          (case load_request h1 newReq of
             Inl f \<Rightarrow> Inl f
           | Inr r \<Rightarrow>
               (case Header_Set h1 (Header r) ''X-GitHub-Api-Version'' ''2023-05-01'' of
                  Inl f \<Rightarrow> Inl f
                | Inr h2 \<Rightarrow> Inr (base t h2 newReq))))"


subsection \<open>The requests of the tests\<close>

text \<open>
  The request of \<^verbatim>\<open>TestCopilotTransportPreservesExistingHeaders\<close>, with the three
  headers the test sets, and a request on which the caller has set the version header
  to a value of its own.
\<close>

definition preservedHeadersHeap :: heap where
  "preservedHeadersHeap =
     \<lparr>requests = [\<lparr>Method = ''GET'', Host = ''127.0.0.1'', Header = Some 0, Body = None\<rparr>],
      headers = [[''Authorization'' \<mapsto> [''Bearer test-token''],
                  ''Content-Type'' \<mapsto> [''application/json''],
                  ''User-Agent'' \<mapsto> [''test-agent'']]]\<rparr>"


text \<open>
  A request that the tests do not make: one built as \<^verbatim>\<open>&http.Request{Method: "GET"}\<close>,
  whose \<^verbatim>\<open>Header\<close> is the nil map.
\<close>

definition nilHeaderHeap :: heap where
  "nilHeaderHeap =
     \<lparr>requests = [\<lparr>Method = ''GET'', Host = ''127.0.0.1'', Header = None, Body = None\<rparr>],
      headers = []\<rparr>"



section \<open>Citation collation\<close>

text \<open>
  The loop that \<^verbatim>\<open>TestCitationFormatting\<close> runs over its citations
  (\<^verbatim>\<open>openai_test.go\<close>, lines 133-164), as a function of the text parts and the
  citations.
\<close>

record CitationEntry =
  URL :: string
  Title :: string

text \<open>\<^verbatim>\<open>citationKey := citation.URL + "|" + citation.Title\<close>\<close>

definition citationKey :: "CitationEntry \<Rightarrow> string" where
  "citationKey c = URL c @ ''|'' @ Title c"

text \<open>\<^verbatim>\<open>citationText := "- [" + citation.Title + "](" + citation.URL + ")"\<close>\<close>

definition citationText :: "CitationEntry \<Rightarrow> string" where
  "citationText c = ''- ['' @ Title c @ '']('' @ URL c @ '')''"

text \<open>Indexing a Go \<^verbatim>\<open>map[string]bool\<close>: \<^verbatim>\<open>false\<close> for a key that is not in the map.\<close>

definition mapIndex :: "(string \<rightharpoonup> bool) \<Rightarrow> string \<Rightarrow> bool" where
  "mapIndex m k = (case m k of None \<Rightarrow> False | Some b \<Rightarrow> b)"

text \<open>
  Lines 152-159, with the state of the loop, \<open>citationMap\<close> and \<open>citations\<close>, passed
  along.
\<close>

fun citationLoop ::
    "CitationEntry list \<Rightarrow> (string \<rightharpoonup> bool) \<Rightarrow> string list \<Rightarrow> (string \<rightharpoonup> bool) \<times> string list" where
  "citationLoop [] citationMap citations = (citationMap, citations)"
| "citationLoop (citation # rest) citationMap citations =
     (if \<not> mapIndex citationMap (citationKey citation)
      then citationLoop rest (citationMap(citationKey citation \<mapsto> True))
             (citations @ [citationText citation])
      else citationLoop rest citationMap citations)"

text \<open>The rendered lines: the loop from \<^verbatim>\<open>make(map[string]bool)\<close> and the nil slice.\<close>

definition collectCitations :: "CitationEntry list \<Rightarrow> string list" where
  "collectCitations entries = snd (citationLoop entries Map.empty [])"






subsection \<open>What the specification asks of the collator\<close>

text \<open>
  The entries that are rendered according to section 4.2 of the specification: an
  entry is rendered iff its identity key is not the key of an entry before it (nor one
  of the keys \<open>seen\<close> at the start), and the rendered entries keep the order of the
  input. This is the yardstick the loop is compared with.
\<close>

definition unseenFirst :: "string set \<Rightarrow> CitationEntry list \<Rightarrow> CitationEntry list" where
  "unseenFirst seen entries =
     map (\<lambda>i. entries ! i)
       (filter (\<lambda>i. citationKey (entries ! i) \<notin> seen \<union> citationKey ` set (take i entries))
          [0..<length entries])"

definition firstOccurrences :: "CitationEntry list \<Rightarrow> CitationEntry list" where
  "firstOccurrences entries = unseenFirst {} entries"


section \<open>The request builder\<close>

text \<open>
  The options and the request as the specification's data model gives them. The type of
  the floating-point fields is the parameter \<open>'f\<close>: the builder only copies them.
\<close>

record ChatMessage =
  Role :: string
  Content :: string

record 'f ChatOptions =
  Model :: string
  Temperature :: 'f
  TopP :: 'f
  MaxTokens :: "int option"
  Raw :: bool
  Search :: bool
  SearchLocation :: "string option"

record UserLocation =
  LocationType :: string
  Timezone :: "string option"

datatype Tool = WebSearch (ToolType: string) (ToolUserLocation: "UserLocation option")

record 'f ProviderRequest =
  RequestModel :: string
  RequestTemperature :: 'f
  RequestTopP :: 'f
  MaxOutputTokens :: "int option"
  Tools :: "Tool list option"

text \<open>
  Modelled from the spec: \<^verbatim>\<open>buildResponseParams\<close>, the method of the client that the
  tests call, is defined in a file of the repository that is not among the sources at
  hand. The definition follows the rules of section 4.1 of the specification: model,
  temperature and topP are copied; maxOutputTokens is set iff maxTokens is present and
  nonzero; the tools are absent when search is disabled, and otherwise one web-search
  tool of type "web_search_preview", with a user location of type "approximate" and the
  search location as its timezone iff the search location is a non-empty string.
\<close>

definition buildResponseParams :: "ChatMessage list \<Rightarrow> 'f ChatOptions \<Rightarrow> 'f ProviderRequest" where
  "buildResponseParams msgs opts =
     \<lparr>RequestModel = Model opts,
      RequestTemperature = Temperature opts,
      RequestTopP = TopP opts,
      MaxOutputTokens =
        (case MaxTokens opts of
           None \<Rightarrow> None
         | Some n \<Rightarrow> if n \<noteq> 0 then Some n else None),
      Tools =
        (if Search opts
         then Some [WebSearch ''web_search_preview''
                (case SearchLocation opts of
                   None \<Rightarrow> None
                 | Some loc \<Rightarrow>
                     if loc \<noteq> []
                     then Some \<lparr>LocationType = ''approximate'', Timezone = Some loc\<rparr>
                     else None)]
         else None)\<rparr>"


section \<open>Properties of the endpoint classifier\<close>

lemma HasPrefix_iff: "HasPrefix s p \<longleftrightarrow> (\<exists>suf. s = p @ suf)"
  by (induction s p rule: HasPrefix.induct) auto

lemma Index_nonneg_iff: "Index s sub \<ge> 0 \<longleftrightarrow> (\<exists>pre suf. s = pre @ sub @ suf)"
proof (induction s)
  case Nil
  then show ?case by auto
next
  case (Cons c cs)
  show ?case
  proof (cases "HasPrefix (c # cs) sub")
    case True
    then obtain suf where "c # cs = sub @ suf"
      using HasPrefix_iff by blast
    then have "c # cs = [] @ sub @ suf" by simp
    then have "\<exists>pre suf. c # cs = pre @ sub @ suf" by blast
    with True show ?thesis by simp
  next
    case False
    have "(\<exists>pre suf. c # cs = pre @ sub @ suf) \<longleftrightarrow> (\<exists>pre suf. cs = pre @ sub @ suf)"
    proof
      assume "\<exists>pre suf. c # cs = pre @ sub @ suf"
      then obtain pre suf where e: "c # cs = pre @ sub @ suf" by blast
      show "\<exists>pre suf. cs = pre @ sub @ suf"
      proof (cases pre)
        case Nil
        with e False show ?thesis by (simp add: HasPrefix_iff)
      next
        case (Cons a pre')
        with e have "cs = pre' @ sub @ suf" by simp
        then show ?thesis by blast
      qed
    next
      assume "\<exists>pre suf. cs = pre @ sub @ suf"
      then obtain pre suf where "cs = pre @ sub @ suf" by blast
      then have "c # cs = (c # pre) @ sub @ suf" by simp
      then show "\<exists>pre suf. c # cs = pre @ sub @ suf" by blast
    qed
    with False Cons.IH show ?thesis by (auto simp: Let_def)
  qed
qed

text \<open>\<open>Contains\<close> is the occurrence of \<open>sub\<close> as a block of consecutive bytes.\<close>

lemma Contains_iff: "Contains s sub \<longleftrightarrow> (\<exists>pre suf. s = pre @ sub @ suf)"
  by (simp add: Contains_def Index_nonneg_iff)

lemma map_eq_block:
  "(\<exists>pre suf. map f xs = pre @ m @ suf) \<longleftrightarrow> (\<exists>p w s. xs = p @ w @ s \<and> map f w = m)"
proof
  assume "\<exists>pre suf. map f xs = pre @ m @ suf"
  then obtain pre suf where e: "map f xs = pre @ m @ suf" by blast
  then obtain p r where 1: "xs = p @ r" "map f p = pre" "map f r = m @ suf"
    by (metis map_eq_append_conv)
  then obtain w s where 2: "r = w @ s" "map f w = m" "map f s = suf"
    by (metis map_eq_append_conv)
  from 1 2 show "\<exists>p w s. xs = p @ w @ s \<and> map f w = m" by blast
next
  assume "\<exists>p w s. xs = p @ w @ s \<and> map f w = m"
  then obtain p w s where "xs = p @ w @ s" "map f w = m" by blast
  then have "map f xs = map f p @ m @ map f s" by simp
  then show "\<exists>pre suf. map f xs = pre @ m @ suf" by blast
qed

lemma isGitHubCopilotURL_ascii:
  assumes "isASCII url"
  shows "isGitHubCopilotURL ul url \<longleftrightarrow>
    (\<exists>p w t. url = p @ w @ t \<and> map lowerByte w = ''api.githubcopilot.com'')"
proof -
  have "isGitHubCopilotURL ul url = Contains (map lowerByte url) ''api.githubcopilot.com''"
    using assms by (simp only: isGitHubCopilotURL_def ToLower_def if_True)
  also have "\<dots> = (\<exists>pre suf. map lowerByte url = pre @ ''api.githubcopilot.com'' @ suf)"
    by (rule Contains_iff)
  also have "\<dots> = (\<exists>p w t. url = p @ w @ t \<and> map lowerByte w = ''api.githubcopilot.com'')"
    by (rule map_eq_block)
  finally show ?thesis .
qed





lemma isASCII_append: "isASCII (a @ b) = (isASCII a \<and> isASCII b)"
  by (simp add: isASCII_def)

lemma isGitHubCopilotURL_anywhere:
  assumes "isASCII pre" and "isASCII suf"
  shows "isGitHubCopilotURL ul (pre @ ''api.githubcopilot.com'' @ suf)"
proof -
  have m: "isASCII ''api.githubcopilot.com''"
    by code_simp
  have l: "map lowerByte ''api.githubcopilot.com'' = ''api.githubcopilot.com''"
    by code_simp
  from assms m have a: "isASCII (pre @ ''api.githubcopilot.com'' @ suf)"
    by (simp only: isASCII_append)
  have "\<exists>p w t. pre @ ''api.githubcopilot.com'' @ suf = p @ w @ t
          \<and> map lowerByte w = ''api.githubcopilot.com''"
    by (rule exI [of _ pre], rule exI [of _ "''api.githubcopilot.com''"], rule exI [of _ suf])
       (rule conjI [OF refl l])
  then show ?thesis
    by (simp only: isGitHubCopilotURL_ascii [OF a])
qed

subsection \<open>\<^verbatim>\<open>strings.ToLower\<close> on every string\<close>

text \<open>The recursion of \<open>MapToLower\<close> is unfolded one rune at a time.\<close>

declare MapToLower.simps(2) [simp del]




































































text \<open>
  C9. The url \<^verbatim>\<open>https://example.com/?u=api.githubcopilot.com\<close>, whose host is
  \<^verbatim>\<open>example.com\<close>, is classified as a Copilot endpoint: the marker counts wherever it
  stands in the string, whatever ASCII text is before and after it.
\<close>

theorem isGitHubCopilotURL_marker_outside_host:
  "isGitHubCopilotURL ul ''https://example.com/?u=api.githubcopilot.com''
   \<and> (\<forall>pre suf. isASCII pre \<and> isASCII suf \<longrightarrow>
         isGitHubCopilotURL ul (pre @ ''api.githubcopilot.com'' @ suf))"
proof (intro conjI allI impI)
  show "isGitHubCopilotURL ul ''https://example.com/?u=api.githubcopilot.com''"
    by code_simp
  show "isGitHubCopilotURL ul (pre @ ''api.githubcopilot.com'' @ suf)"
    if "isASCII pre \<and> isASCII suf" for pre suf
    using that by (elim conjE) (rule isGitHubCopilotURL_anywhere)
qed

theorem isGitHubCopilotURL_marker_outside_host_witness:
  "isASCII ''https://example.com/search?q='' \<and> isASCII ''&lang=en''
   \<and> isGitHubCopilotURL (\<lambda>s. s)
        (''https://example.com/search?q='' @ ''api.githubcopilot.com'' @ ''&lang=en'')"
proof -
  have a: "isASCII ''https://example.com/search?q=''"
    by code_simp
  have b: "isASCII ''&lang=en''"
    by code_simp
  from isGitHubCopilotURL_marker_outside_host [of "\<lambda>s. s"]
  have "\<forall>pre suf. isASCII pre \<and> isASCII suf \<longrightarrow>
         isGitHubCopilotURL (\<lambda>s. s) (pre @ ''api.githubcopilot.com'' @ suf)"
    by (rule conjunct2)
  then have "isASCII ''https://example.com/search?q='' \<and> isASCII ''&lang=en'' \<longrightarrow>
      isGitHubCopilotURL (\<lambda>s. s)
        (''https://example.com/search?q='' @ ''api.githubcopilot.com'' @ ''&lang=en'')"
    by (elim allE)
  with a b show ?thesis
    by (intro conjI) (assumption, assumption, erule mp, rule conjI)
qed

section \<open>Properties of the transport\<close>

lemma live_requestD:
  "live_request h req \<Longrightarrow>
     \<exists>a. req < length (requests h) \<and> Header (requests h ! req) = Some a \<and> a < length (headers h)"
  by (auto simp: live_request_def split: option.splits)

text \<open>
  On a live request \<open>RoundTrip\<close> does not fault: it calls the underlying executor once,
  on the clone it has appended to the heap.
\<close>

lemma RoundTrip_live:
  assumes "req < length (requests h)" and "Header (requests h ! req) = Some a"
    and "a < length (headers h)"
  shows "RoundTrip t h req = Inr (base t
      (h\<lparr>requests := requests h @ [(requests h ! req)\<lparr>Header := Some (length (headers h))\<rparr>],
         headers := headers h @
           [(headers h ! a)(CanonicalMIMEHeaderKey ''X-GitHub-Api-Version'' \<mapsto> [''2023-05-01''])]\<rparr>)
      (length (requests h)))"
  using assms
  by (simp add: RoundTrip_def Request_Clone_def load_request_def Header_Clone_def
      Header_Set_def nth_append)

text \<open>Outside the contract of \<^verbatim>\<open>http.RoundTripper\<close> the Go run time faults.\<close>

lemma RoundTrip_nil_header:
  "req < length (requests h) \<Longrightarrow> Header (requests h ! req) = None \<Longrightarrow>
     RoundTrip t h req = Inl NilMapAssignment"
  by (simp add: RoundTrip_def Request_Clone_def load_request_def Header_Clone_def
      Header_Set_def nth_append)

lemma RoundTrip_nil_request:
  "\<not> req < length (requests h) \<Longrightarrow> RoundTrip t h req = Inl NilPointerDereference"
  by (simp add: RoundTrip_def Request_Clone_def load_request_def)

lemma RoundTrip_dangling:
  "req < length (requests h) \<Longrightarrow> Header (requests h ! req) = Some a \<Longrightarrow>
     \<not> a < length (headers h) \<Longrightarrow> \<exists>f. RoundTrip t h req = Inl f"
  by (simp add: RoundTrip_def Request_Clone_def load_request_def Header_Clone_def
      Header_Set_def nth_append)

text \<open>\<open>RoundTrip\<close> is free of faults exactly on the requests of the contract.\<close>

lemma RoundTrip_faultless_iff:
  "(\<forall>f. RoundTrip t h req \<noteq> Inl f) \<longleftrightarrow> live_request h req"
proof
  assume nf: "\<forall>f. RoundTrip t h req \<noteq> Inl f"
  show "live_request h req"
  proof (rule ccontr)
    assume n: "\<not> live_request h req"
    have "\<exists>f. RoundTrip t h req = Inl f"
    proof (cases "req < length (requests h)")
      case False
      then show ?thesis
        by (simp add: RoundTrip_nil_request)
    next
      case True
      show ?thesis
      proof (cases "Header (requests h ! req)")
        case None
        with True show ?thesis
          by (simp add: RoundTrip_nil_header)
      next
        case (Some a)
        with True n have "\<not> a < length (headers h)"
          by (simp add: live_request_def)
        with True Some show ?thesis
          by (rule RoundTrip_dangling)
      qed
    qed
    with nf show False
      by simp
  qed
next
  assume "live_request h req"
  then obtain a where
    l: "req < length (requests h)" "Header (requests h ! req) = Some a" "a < length (headers h)"
    using live_requestD by blast
  show "\<forall>f. RoundTrip t h req \<noteq> Inl f"
    by (simp only: RoundTrip_live [OF l]) simp
qed

lemma version_key: "CanonicalMIMEHeaderKey ''X-GitHub-Api-Version'' = ''X-Github-Api-Version''"
  by code_simp

lemma test_keys_differ:
  "''Authorization'' \<noteq> CanonicalMIMEHeaderKey ''X-GitHub-Api-Version''"
  "''Content-Type'' \<noteq> CanonicalMIMEHeaderKey ''X-GitHub-Api-Version''"
  "''User-Agent'' \<noteq> CanonicalMIMEHeaderKey ''X-GitHub-Api-Version''"
  by (simp_all add: version_key)


text \<open>
  \<^verbatim>\<open>NewCopilotTransport\<close> keeps the executor it is given, and takes
  \<^verbatim>\<open>http.DefaultTransport\<close> when it is given nil.
\<close>

lemma NewCopilotTransport_base:
  "base (NewCopilotTransport DefaultTransport None) = DefaultTransport
   \<and> base (NewCopilotTransport DefaultTransport (Some rt)) = rt"
  by (simp add: NewCopilotTransport_def)

text \<open>
  C2. On every request that the contract of \<^verbatim>\<open>http.RoundTripper\<close> admits, the
  underlying executor is handed a clone: a new request object with a new header map.
  Every key but the canonical form of \<^verbatim>\<open>X-GitHub-Api-Version\<close> has in the clone's map
  the values it has in the caller's, no key of the caller's map is missing from it, and
  the other fields are the caller's. The caller's request object and its header map,
  like every object that was on the heap before the call, are as they were.
\<close>

theorem RoundTrip_preserves_headers:
  assumes "live_request h req"
  shows "\<exists>h2 newReq a a2.
      (\<forall>t :: 'r CopilotTransport. RoundTrip t h req = Inr (base t h2 newReq))
    \<and> Header (requests h ! req) = Some a
    \<and> newReq \<noteq> req \<and> newReq < length (requests h2)
    \<and> Header (requests h2 ! newReq) = Some a2 \<and> a2 \<noteq> a \<and> a2 < length (headers h2)
    \<and> (\<forall>k. k \<noteq> CanonicalMIMEHeaderKey ''X-GitHub-Api-Version'' \<longrightarrow>
            (headers h2 ! a2) k = (headers h ! a) k)
    \<and> dom (headers h ! a) \<subseteq> dom (headers h2 ! a2)
    \<and> Method (requests h2 ! newReq) = Method (requests h ! req)
    \<and> Host (requests h2 ! newReq) = Host (requests h ! req)
    \<and> Body (requests h2 ! newReq) = Body (requests h ! req)
    \<and> requests h2 ! req = requests h ! req
    \<and> headers h2 ! a = headers h ! a
    \<and> take (length (requests h)) (requests h2) = requests h
    \<and> take (length (headers h)) (headers h2) = headers h"
proof -
  from assms obtain a where
    l: "req < length (requests h)" "Header (requests h ! req) = Some a" "a < length (headers h)"
    using live_requestD by blast
  let ?key = "CanonicalMIMEHeaderKey ''X-GitHub-Api-Version''"
  let ?h2 = "h\<lparr>requests := requests h @ [(requests h ! req)\<lparr>Header := Some (length (headers h))\<rparr>],
       headers := headers h @ [(headers h ! a)(?key \<mapsto> [''2023-05-01''])]\<rparr>"
  let ?newReq = "length (requests h)"
  let ?a2 = "length (headers h)"
  have fw: "\<forall>t :: 'r CopilotTransport. RoundTrip t h req = Inr (base t ?h2 ?newReq)"
    using RoundTrip_live [OF l] by (intro allI)
  have o1: "?newReq \<noteq> req" using l by simp
  have o2: "?newReq < length (requests ?h2)" by simp
  have o3: "Header (requests ?h2 ! ?newReq) = Some ?a2" by simp
  have o4: "?a2 \<noteq> a" using l by simp
  have o5: "?a2 < length (headers ?h2)" by simp
  have frame: "\<forall>k. k \<noteq> ?key \<longrightarrow> (headers ?h2 ! ?a2) k = (headers h ! a) k"
    by simp
  have kept: "dom (headers h ! a) \<subseteq> dom (headers ?h2 ! ?a2)"
    by auto
  have f1: "Method (requests ?h2 ! ?newReq) = Method (requests h ! req)" by simp
  have f2: "Host (requests ?h2 ! ?newReq) = Host (requests h ! req)" by simp
  have f3: "Body (requests ?h2 ! ?newReq) = Body (requests h ! req)" by simp
  have g1: "requests ?h2 ! req = requests h ! req"
    using l by (simp add: nth_append)
  have g2: "headers ?h2 ! a = headers h ! a"
    using l by (simp add: nth_append)
  have g3: "take (length (requests h)) (requests ?h2) = requests h" by simp
  have g4: "take (length (headers h)) (headers ?h2) = headers h" by simp
  show ?thesis
    by (rule exI [of _ ?h2], rule exI [of _ ?newReq], rule exI [of _ a], rule exI [of _ ?a2])
       (intro conjI fw l(2) o1 o2 o3 o4 o5 frame kept f1 f2 f3 g1 g2 g3 g4)
qed

theorem RoundTrip_preserves_headers_witness:
  "live_request preservedHeadersHeap 0
   \<and> (\<exists>h2 newReq a2.
         RoundTrip \<lparr>base = Pair\<rparr> preservedHeadersHeap 0 = Inr (h2, newReq)
       \<and> Header (requests h2 ! newReq) = Some a2
       \<and> (headers h2 ! a2) ''Authorization'' = Some [''Bearer test-token'']
       \<and> (headers h2 ! a2) ''Content-Type'' = Some [''application/json'']
       \<and> (headers h2 ! a2) ''User-Agent'' = Some [''test-agent'']
       \<and> requests h2 ! 0 = requests preservedHeadersHeap ! 0
       \<and> headers h2 ! 0 = headers preservedHeadersHeap ! 0)"
proof -
  have live: "live_request preservedHeadersHeap 0"
    by (simp add: live_request_def preservedHeadersHeap_def)
  from RoundTrip_preserves_headers [OF live, where ?'r = "heap \<times> addr"]
  obtain h2 newReq a a2 where
    fw: "\<forall>t :: (heap \<times> addr) CopilotTransport.
           RoundTrip t preservedHeadersHeap 0 = Inr (base t h2 newReq)"
    and a: "Header (requests preservedHeadersHeap ! 0) = Some a"
    and a2: "Header (requests h2 ! newReq) = Some a2"
    and frame: "\<forall>k. k \<noteq> CanonicalMIMEHeaderKey ''X-GitHub-Api-Version'' \<longrightarrow>
            (headers h2 ! a2) k = (headers preservedHeadersHeap ! a) k"
    and req: "requests h2 ! 0 = requests preservedHeadersHeap ! 0"
    and orig: "headers h2 ! a = headers preservedHeadersHeap ! a"
    by (elim exE conjE)
  from a have a0: "a = 0"
    by (simp add: preservedHeadersHeap_def)
  from fw have "RoundTrip \<lparr>base = Pair\<rparr> preservedHeadersHeap 0
      = Inr (base \<lparr>base = Pair\<rparr> h2 newReq)"
    by (rule spec)
  then have r: "RoundTrip \<lparr>base = Pair\<rparr> preservedHeadersHeap 0 = Inr (h2, newReq)"
    by simp
  have 1: "(headers h2 ! a2) ''Authorization'' = Some [''Bearer test-token'']"
    using frame [rule_format, OF test_keys_differ(1)] by (simp add: a0 preservedHeadersHeap_def)
  have 2: "(headers h2 ! a2) ''Content-Type'' = Some [''application/json'']"
    using frame [rule_format, OF test_keys_differ(2)] by (simp add: a0 preservedHeadersHeap_def)
  have 3: "(headers h2 ! a2) ''User-Agent'' = Some [''test-agent'']"
    using frame [rule_format, OF test_keys_differ(3)] by (simp add: a0 preservedHeadersHeap_def)
  have 4: "headers h2 ! 0 = headers preservedHeadersHeap ! 0"
    using orig by (simp only: a0)
  have "\<exists>h2 newReq a2.
         RoundTrip \<lparr>base = Pair\<rparr> preservedHeadersHeap 0 = Inr (h2, newReq)
       \<and> Header (requests h2 ! newReq) = Some a2
       \<and> (headers h2 ! a2) ''Authorization'' = Some [''Bearer test-token'']
       \<and> (headers h2 ! a2) ''Content-Type'' = Some [''application/json'']
       \<and> (headers h2 ! a2) ''User-Agent'' = Some [''test-agent'']
       \<and> requests h2 ! 0 = requests preservedHeadersHeap ! 0
       \<and> headers h2 ! 0 = headers preservedHeadersHeap ! 0"
    by (rule exI [of _ h2], rule exI [of _ newReq], rule exI [of _ a2])
       (intro conjI r a2 1 2 3 req 4)
  with live show ?thesis
    by (intro conjI)
qed



text \<open>
  C8. \<open>RoundTrip\<close> returns what the underlying executor returns on the clone, whatever
  that is, on the requests that the contract of \<^verbatim>\<open>http.RoundTripper\<close> admits and on no
  other: on such a request an error comes back as that error, a response as that
  response, and \<open>RoundTrip\<close> has no fault of its own. A request whose \<^verbatim>\<open>Header\<close> is the
  nil map makes \<open>RoundTrip\<close> panic in \<^verbatim>\<open>Header.Set\<close>, and a nil request makes it panic
  in \<^verbatim>\<open>req.Context()\<close>, in both cases before the executor is called: \<open>RoundTrip\<close> is
  free of faults of its own exactly on the requests of the contract, and not on every
  request.
\<close>

theorem RoundTrip_returns_base_outcome:
  "(live_request h req \<longrightarrow>
      (\<exists>h2 newReq.
          (\<forall>t :: 'r CopilotTransport. RoundTrip t h req = Inr (base t h2 newReq))
        \<and> (\<forall>(t :: ('e + 'p) CopilotTransport) e.
              base t h2 newReq = Inl e \<longrightarrow> RoundTrip t h req = Inr (Inl e))
        \<and> (\<forall>(t :: ('e + 'p) CopilotTransport) p.
              base t h2 newReq = Inr p \<longrightarrow> RoundTrip t h req = Inr (Inr p))
        \<and> (\<forall>(t :: 'r CopilotTransport) f. RoundTrip t h req \<noteq> Inl f)))
   \<and> ((\<forall>f. RoundTrip (u :: 'r CopilotTransport) h req \<noteq> Inl f) \<longleftrightarrow> live_request h req)
   \<and> (req < length (requests h) \<and> Header (requests h ! req) = None \<longrightarrow>
        (\<forall>t :: 'r CopilotTransport. RoundTrip t h req = Inl NilMapAssignment))
   \<and> (\<not> req < length (requests h) \<longrightarrow>
        (\<forall>t :: 'r CopilotTransport. RoundTrip t h req = Inl NilPointerDereference))"
proof (intro conjI impI)
  assume "live_request h req"
  then obtain a where
    l: "req < length (requests h)" "Header (requests h ! req) = Some a" "a < length (headers h)"
    using live_requestD by blast
  let ?h2 = "h\<lparr>requests := requests h @ [(requests h ! req)\<lparr>Header := Some (length (headers h))\<rparr>],
       headers := headers h @
         [(headers h ! a)(CanonicalMIMEHeaderKey ''X-GitHub-Api-Version'' \<mapsto> [''2023-05-01''])]\<rparr>"
  let ?newReq = "length (requests h)"
  have 1: "\<forall>t :: 'r CopilotTransport. RoundTrip t h req = Inr (base t ?h2 ?newReq)"
    using RoundTrip_live [OF l] by (intro allI)
  have 2: "\<forall>(t :: ('e + 'p) CopilotTransport) e.
          base t ?h2 ?newReq = Inl e \<longrightarrow> RoundTrip t h req = Inr (Inl e)"
    by (simp only: RoundTrip_live [OF l]) simp
  have 3: "\<forall>(t :: ('e + 'p) CopilotTransport) p.
          base t ?h2 ?newReq = Inr p \<longrightarrow> RoundTrip t h req = Inr (Inr p)"
    by (simp only: RoundTrip_live [OF l]) simp
  have 4: "\<forall>(t :: 'r CopilotTransport) f. RoundTrip t h req \<noteq> Inl f"
    by (simp only: RoundTrip_live [OF l]) simp
  show "\<exists>h2 newReq.
          (\<forall>t :: 'r CopilotTransport. RoundTrip t h req = Inr (base t h2 newReq))
        \<and> (\<forall>(t :: ('e + 'p) CopilotTransport) e.
              base t h2 newReq = Inl e \<longrightarrow> RoundTrip t h req = Inr (Inl e))
        \<and> (\<forall>(t :: ('e + 'p) CopilotTransport) p.
              base t h2 newReq = Inr p \<longrightarrow> RoundTrip t h req = Inr (Inr p))
        \<and> (\<forall>(t :: 'r CopilotTransport) f. RoundTrip t h req \<noteq> Inl f)"
    by (rule exI [of _ ?h2], rule exI [of _ ?newReq]) (intro conjI 1 2 3 4)
next
  show "(\<forall>f. RoundTrip u h req \<noteq> Inl f) \<longleftrightarrow> live_request h req"
    by (rule RoundTrip_faultless_iff)
next
  assume "req < length (requests h) \<and> Header (requests h ! req) = None"
  then show "\<forall>t :: 'r CopilotTransport. RoundTrip t h req = Inl NilMapAssignment"
    by (intro allI, elim conjE) (rule RoundTrip_nil_header)
next
  assume "\<not> req < length (requests h)"
  then show "\<forall>t :: 'r CopilotTransport. RoundTrip t h req = Inl NilPointerDereference"
    by (intro allI) (rule RoundTrip_nil_request)
qed

theorem RoundTrip_returns_base_outcome_witness:
  "live_request preservedHeadersHeap 0
   \<and> RoundTrip \<lparr>base = (\<lambda>h r. Inl ''connection refused'' :: string + nat)\<rparr> preservedHeadersHeap 0
       = Inr (Inl ''connection refused'')
   \<and> RoundTrip \<lparr>base = (\<lambda>h r. Inr 200 :: string + nat)\<rparr> preservedHeadersHeap 0
       = Inr (Inr 200)
   \<and> 0 < length (requests nilHeaderHeap) \<and> Header (requests nilHeaderHeap ! 0) = None
   \<and> RoundTrip \<lparr>base = (\<lambda>h r. Inl ''connection refused'' :: string + nat)\<rparr> nilHeaderHeap 0
       = Inl NilMapAssignment
   \<and> \<not> 1 < length (requests nilHeaderHeap)
   \<and> RoundTrip \<lparr>base = (\<lambda>h r. Inl ''connection refused'' :: string + nat)\<rparr> nilHeaderHeap 1
       = Inl NilPointerDereference"
proof -
  have live: "live_request preservedHeadersHeap 0"
    by (simp add: live_request_def preservedHeadersHeap_def)
  have nil: "0 < length (requests nilHeaderHeap) \<and> Header (requests nilHeaderHeap ! 0) = None"
    by (simp add: nilHeaderHeap_def)
  have out: "\<not> 1 < length (requests nilHeaderHeap)"
    by (simp add: nilHeaderHeap_def)
  note c = RoundTrip_returns_base_outcome [where ?'e = string and ?'p = nat and ?'r = "string + nat"]
  from c [where h = preservedHeadersHeap and req = 0, THEN conjunct1, THEN mp, OF live]
  obtain h2 newReq where
    e: "\<forall>(t :: (string + nat) CopilotTransport) e.
          base t h2 newReq = Inl e \<longrightarrow> RoundTrip t preservedHeadersHeap 0 = Inr (Inl e)"
    and p: "\<forall>(t :: (string + nat) CopilotTransport) p.
          base t h2 newReq = Inr p \<longrightarrow> RoundTrip t preservedHeadersHeap 0 = Inr (Inr p)"
    by (elim exE conjE)
  from e have 1: "RoundTrip \<lparr>base = (\<lambda>h r. Inl ''connection refused'' :: string + nat)\<rparr>
      preservedHeadersHeap 0 = Inr (Inl ''connection refused'')"
    by simp
  from p have 2: "RoundTrip \<lparr>base = (\<lambda>h r. Inr 200 :: string + nat)\<rparr>
      preservedHeadersHeap 0 = Inr (Inr 200)"
    by simp
  from c [where h = nilHeaderHeap and req = 0,
      THEN conjunct2, THEN conjunct2, THEN conjunct1, THEN mp, OF nil]
  have 3: "RoundTrip \<lparr>base = (\<lambda>h r. Inl ''connection refused'' :: string + nat)\<rparr> nilHeaderHeap 0
      = Inl NilMapAssignment"
    by (rule spec)
  from c [where h = nilHeaderHeap and req = 1,
      THEN conjunct2, THEN conjunct2, THEN conjunct2, THEN mp, OF out]
  have 4: "RoundTrip \<lparr>base = (\<lambda>h r. Inl ''connection refused'' :: string + nat)\<rparr> nilHeaderHeap 1
      = Inl NilPointerDereference"
    by (rule spec)
  show ?thesis
    by (intro conjI)
      (rule live, rule 1, rule 2, rule nil [THEN conjunct1], rule nil [THEN conjunct2],
        rule 3, rule out, rule 4)
qed

text \<open>
  A request on which \<open>RoundTrip\<close> fails by itself: its \<^verbatim>\<open>Header\<close> is nil, the
  executor would answer every request with status 200, and \<open>RoundTrip\<close> returns neither
  a response nor an error of the executor: it panics.
\<close>

theorem RoundTrip_nil_header_panics:
  "\<not> live_request nilHeaderHeap 0
   \<and> RoundTrip \<lparr>base = (\<lambda>h r. Inr 200 :: string + nat)\<rparr> nilHeaderHeap 0 = Inl NilMapAssignment
   \<and> (\<forall>r. RoundTrip \<lparr>base = (\<lambda>h r. Inr 200 :: string + nat)\<rparr> nilHeaderHeap 0 \<noteq> Inr r)"
proof -
  have "RoundTrip \<lparr>base = (\<lambda>h r. Inr 200 :: string + nat)\<rparr> nilHeaderHeap 0 = Inl NilMapAssignment"
    by (rule RoundTrip_nil_header) (simp_all add: nilHeaderHeap_def)
  moreover have "\<not> live_request nilHeaderHeap 0"
    by (simp add: live_request_def nilHeaderHeap_def)
  ultimately show ?thesis
    by simp
qed


section \<open>Properties of the citation collator\<close>

lemma unseenFirst_Nil: "unseenFirst seen [] = []"
  by (simp add: unseenFirst_def)

lemma unseenFirst_Cons:
  "unseenFirst seen (e # es) =
     (if citationKey e \<in> seen then unseenFirst seen es
      else e # unseenFirst (insert (citationKey e) seen) es)"
proof -
  let ?P = "\<lambda>i. citationKey ((e # es) ! i) \<notin> seen \<union> citationKey ` set (take i (e # es))"
  let ?Q = "\<lambda>i. citationKey (es ! i) \<notin> insert (citationKey e) seen \<union> citationKey ` set (take i es)"
  have u: "[0..<length (e # es)] = 0 # map Suc [0..<length es]"
    by (simp add: upt_conv_Cons map_Suc_upt del: upt_Suc)
  have pq: "?P \<circ> Suc = ?Q"
    by (rule ext) auto
  have "unseenFirst seen (e # es) = map (\<lambda>i. (e # es) ! i) (filter ?P (0 # map Suc [0..<length es]))"
    unfolding unseenFirst_def u ..
  also have "\<dots> = (if citationKey e \<in> seen then [] else [e])
      @ map ((\<lambda>i. (e # es) ! i) \<circ> Suc) (filter (?P \<circ> Suc) [0..<length es])"
    by (simp add: filter_map)
  also have "\<dots> = (if citationKey e \<in> seen then [] else [e])
      @ map (\<lambda>i. es ! i) (filter ?Q [0..<length es])"
    unfolding pq by (simp add: comp_def)
  also have "\<dots> = (if citationKey e \<in> seen then [] else [e])
      @ unseenFirst (insert (citationKey e) seen) es"
    unfolding unseenFirst_def ..
  finally show ?thesis
    by (simp add: insert_absorb)
qed

lemma seen_update:
  "{k. mapIndex (m(k' \<mapsto> True)) k} = insert k' {k. mapIndex m k}"
  by (auto simp: mapIndex_def)

text \<open>The loop renders the entries the specification asks for, in its order.\<close>

lemma citationLoop_unseenFirst:
  "snd (citationLoop es m acc) = acc @ map citationText (unseenFirst {k. mapIndex m k} es)"
proof (induction es arbitrary: m acc)
  case Nil
  show ?case by (simp add: unseenFirst_Nil)
next
  case (Cons e es)
  show ?case
  proof (cases "mapIndex m (citationKey e)")
    case True
    then show ?thesis
      by (simp add: Cons.IH unseenFirst_Cons)
  next
    case False
    then have "snd (citationLoop (e # es) m acc)
        = snd (citationLoop es (m(citationKey e \<mapsto> True)) (acc @ [citationText e]))"
      by simp
    also have "\<dots> = (acc @ [citationText e])
        @ map citationText (unseenFirst {k. mapIndex (m(citationKey e \<mapsto> True)) k} es)"
      by (rule Cons.IH)
    also have "\<dots> = acc
        @ map citationText (e # unseenFirst (insert (citationKey e) {k. mapIndex m k}) es)"
      by (simp only: seen_update append_assoc append_Cons append_Nil list.map)
    also have "\<dots> = acc @ map citationText (unseenFirst {k. mapIndex m k} (e # es))"
      using False by (simp only: unseenFirst_Cons mem_Collect_eq if_False)
    finally show ?thesis .
  qed
qed

lemma collectCitations_firstOccurrences:
  "collectCitations entries = map citationText (firstOccurrences entries)"
proof -
  have "{k. mapIndex Map.empty k} = {}"
    by (simp add: mapIndex_def)
  then show ?thesis
    by (simp add: collectCitations_def firstOccurrences_def citationLoop_unseenFirst)
qed



lemma unseenFirst_append:
  "unseenFirst seen (xs @ ys) = unseenFirst seen xs @ unseenFirst (seen \<union> citationKey ` set xs) ys"
proof (induction xs arbitrary: seen)
  case Nil
  show ?case by (simp add: unseenFirst_Nil)
next
  case (Cons x xs)
  have "insert (citationKey x) seen \<union> citationKey ` set xs
      = seen \<union> citationKey ` set (x # xs)"
    by auto
  moreover have "citationKey x \<in> seen \<Longrightarrow> seen \<union> citationKey ` set xs
      = seen \<union> citationKey ` set (x # xs)"
    by auto
  ultimately show ?case
    by (simp add: unseenFirst_Cons Cons.IH)
qed

lemma firstOccurrences_later_duplicate:
  assumes "citationKey e \<in> citationKey ` set pre"
  shows "firstOccurrences (pre @ e # suf) = firstOccurrences (pre @ suf)"
  using assms by (simp add: firstOccurrences_def unseenFirst_append unseenFirst_Cons)


lemma firstOccurrences_pair:
  "citationKey a \<noteq> citationKey b \<Longrightarrow> firstOccurrences [a, b] = [a, b]"
  by (simp add: firstOccurrences_def unseenFirst_Cons unseenFirst_Nil)


lemma citationKey_same_url:
  "URL a = URL b \<Longrightarrow> Title a \<noteq> Title b \<Longrightarrow> citationKey a \<noteq> citationKey b"
  by (simp add: citationKey_def)

lemma citationKey_same_title:
  "Title a = Title b \<Longrightarrow> URL a \<noteq> URL b \<Longrightarrow> citationKey a \<noteq> citationKey b"
  by (simp add: citationKey_def)







text \<open>
  C7. Two entries with the same url and different titles have different identity keys
  and are both rendered, and so are two entries with the same title and different urls.
  An entry whose key an earlier entry has leaves the output as it is without it,
  wherever it stands, so the rendered entries keep the order of their first
  occurrences.
\<close>

theorem collate_distinct_entries_order:
  "(URL a = URL b \<and> Title a \<noteq> Title b \<longrightarrow>
       citationKey a \<noteq> citationKey b
     \<and> collectCitations [a, b] = [citationText a, citationText b])
   \<and> (Title a = Title b \<and> URL a \<noteq> URL b \<longrightarrow>
       citationKey a \<noteq> citationKey b
     \<and> collectCitations [a, b] = [citationText a, citationText b])
   \<and> (citationKey e \<in> citationKey ` set pre \<longrightarrow>
       collectCitations (pre @ e # suf) = collectCitations (pre @ suf))
   \<and> collectCitations entries = map citationText (firstOccurrences entries)"
proof (intro conjI impI)
  show "citationKey a \<noteq> citationKey b" if "URL a = URL b \<and> Title a \<noteq> Title b"
    using that by (simp add: citationKey_def)
  show "collectCitations [a, b] = [citationText a, citationText b]"
    if "URL a = URL b \<and> Title a \<noteq> Title b"
  proof -
    from that have "citationKey a \<noteq> citationKey b"
      by (simp add: citationKey_def)
    then show ?thesis
      by (simp add: collectCitations_firstOccurrences firstOccurrences_pair)
  qed
  show "citationKey a \<noteq> citationKey b" if "Title a = Title b \<and> URL a \<noteq> URL b"
    using that by (simp add: citationKey_def)
  show "collectCitations [a, b] = [citationText a, citationText b]"
    if "Title a = Title b \<and> URL a \<noteq> URL b"
  proof -
    from that have "citationKey a \<noteq> citationKey b"
      by (simp add: citationKey_def)
    then show ?thesis
      by (simp add: collectCitations_firstOccurrences firstOccurrences_pair)
  qed
  show "collectCitations (pre @ e # suf) = collectCitations (pre @ suf)"
    if "citationKey e \<in> citationKey ` set pre"
    by (simp only: collectCitations_firstOccurrences firstOccurrences_later_duplicate [OF that])
  show "collectCitations entries = map citationText (firstOccurrences entries)"
    by (rule collectCitations_firstOccurrences)
qed

theorem collate_distinct_entries_order_witness:
  "collectCitations
     [\<lparr>URL = ''https://example.com/a'', Title = ''One''\<rparr>,
      \<lparr>URL = ''https://example.com/a'', Title = ''Two''\<rparr>]
     = [''- [One](https://example.com/a)'', ''- [Two](https://example.com/a)'']
   \<and> collectCitations
     [\<lparr>URL = ''https://example.com/b'', Title = ''One''\<rparr>,
      \<lparr>URL = ''https://example.com/a'', Title = ''One''\<rparr>]
     = [''- [One](https://example.com/b)'', ''- [One](https://example.com/a)'']
   \<and> collectCitations
     ([\<lparr>URL = ''https://example.com/b'', Title = ''One''\<rparr>,
       \<lparr>URL = ''https://example.com/a'', Title = ''One''\<rparr>]
      @ \<lparr>URL = ''https://example.com/b'', Title = ''One''\<rparr>
      # [\<lparr>URL = ''https://example.com/a'', Title = ''Two''\<rparr>])
     = collectCitations
     ([\<lparr>URL = ''https://example.com/b'', Title = ''One''\<rparr>,
       \<lparr>URL = ''https://example.com/a'', Title = ''One''\<rparr>]
      @ [\<lparr>URL = ''https://example.com/a'', Title = ''Two''\<rparr>])"
proof -
  let ?a1 = "\<lparr>URL = ''https://example.com/a'', Title = ''One''\<rparr>"
  let ?a2 = "\<lparr>URL = ''https://example.com/a'', Title = ''Two''\<rparr>"
  let ?b1 = "\<lparr>URL = ''https://example.com/b'', Title = ''One''\<rparr>"
  have h1: "URL ?a1 = URL ?a2 \<and> Title ?a1 \<noteq> Title ?a2"
    by simp
  have h2: "Title ?b1 = Title ?a1 \<and> URL ?b1 \<noteq> URL ?a1"
    by simp
  have h3: "citationKey ?b1 \<in> citationKey ` set [?b1, ?a1]"
    by simp
  have "collectCitations [?a1, ?a2] = [citationText ?a1, citationText ?a2]"
    by (rule collate_distinct_entries_order [where a = ?a1 and b = ?a2,
          THEN conjunct1, THEN mp, OF h1, THEN conjunct2])
  then have 1: "collectCitations [?a1, ?a2]
      = [''- [One](https://example.com/a)'', ''- [Two](https://example.com/a)'']"
    by (simp add: citationText_def)
  have "collectCitations [?b1, ?a1] = [citationText ?b1, citationText ?a1]"
    by (rule collate_distinct_entries_order [where a = ?b1 and b = ?a1,
          THEN conjunct2, THEN conjunct1, THEN mp, OF h2, THEN conjunct2])
  then have 2: "collectCitations [?b1, ?a1]
      = [''- [One](https://example.com/b)'', ''- [One](https://example.com/a)'']"
    by (simp add: citationText_def)
  have 3: "collectCitations ([?b1, ?a1] @ ?b1 # [?a2]) = collectCitations ([?b1, ?a1] @ [?a2])"
    by (rule collate_distinct_entries_order
          [where e = ?b1 and pre = "[?b1, ?a1]" and suf = "[?a2]",
          THEN conjunct2, THEN conjunct2, THEN conjunct1, THEN mp, OF h3])
  from 1 2 3 show ?thesis
    by (intro conjI)
qed

text \<open>
  C10. The identity key is the url, then \<^verbatim>\<open>|\<close>, then the title, and it is not
  injective: the entries \<^verbatim>\<open>("a|b", "c")\<close> and \<^verbatim>\<open>("a", "b|c")\<close> differ in url and in
  title and have the same key \<^verbatim>\<open>a|b|c\<close>, so whichever comes second is dropped as a
  duplicate of the first.
\<close>

theorem citationKey_not_injective:
  "citationKey c = URL c @ ''|'' @ Title c
   \<and> URL \<lparr>URL = ''a|b'', Title = ''c''\<rparr> \<noteq> URL \<lparr>URL = ''a'', Title = ''b|c''\<rparr>
   \<and> Title \<lparr>URL = ''a|b'', Title = ''c''\<rparr> \<noteq> Title \<lparr>URL = ''a'', Title = ''b|c''\<rparr>
   \<and> citationKey \<lparr>URL = ''a|b'', Title = ''c''\<rparr> = ''a|b|c''
   \<and> citationKey \<lparr>URL = ''a'', Title = ''b|c''\<rparr> = ''a|b|c''
   \<and> (\<exists>x y. x \<noteq> y \<and> citationKey x = citationKey y)
   \<and> collectCitations [\<lparr>URL = ''a|b'', Title = ''c''\<rparr>, \<lparr>URL = ''a'', Title = ''b|c''\<rparr>]
        = [''- [c](a|b)'']
   \<and> collectCitations [\<lparr>URL = ''a'', Title = ''b|c''\<rparr>, \<lparr>URL = ''a|b'', Title = ''c''\<rparr>]
        = [''- [b|c](a)'']"
proof (intro conjI)
  let ?x = "\<lparr>URL = ''a|b'', Title = ''c''\<rparr>"
  let ?y = "\<lparr>URL = ''a'', Title = ''b|c''\<rparr>"
  show "citationKey c = URL c @ ''|'' @ Title c"
    by (rule citationKey_def)
  show "URL ?x \<noteq> URL ?y"
    by simp
  show "Title ?x \<noteq> Title ?y"
    by simp
  show "citationKey ?x = ''a|b|c''"
    by (simp add: citationKey_def)
  show "citationKey ?y = ''a|b|c''"
    by (simp add: citationKey_def)
  have "?x \<noteq> ?y \<and> citationKey ?x = citationKey ?y"
    by (simp add: citationKey_def)
  then show "\<exists>x y. x \<noteq> y \<and> citationKey x = citationKey y"
    by (intro exI)
  show "collectCitations [?x, ?y] = [''- [c](a|b)'']"
    by (simp add: collectCitations_def citationKey_def citationText_def mapIndex_def)
  show "collectCitations [?y, ?x] = [''- [b|c](a)'']"
    by (simp add: collectCitations_def citationKey_def citationText_def mapIndex_def)
qed

section \<open>Properties of the request builder\<close>

text \<open>
  C4. The tools of the built request are absent when search is disabled. When it is
  enabled they are exactly one web-search tool of type \<^verbatim>\<open>web_search_preview\<close>; its user
  location is present, of type \<^verbatim>\<open>approximate\<close> and with the search location as its
  timezone, when the search location is a non-empty string, and it is absent when the
  search location is empty or not given. The tools are never a present, empty list.
\<close>

theorem buildResponseParams_tools:
  "(\<not> Search opts \<longrightarrow> Tools (buildResponseParams msgs opts) = None)
   \<and> (Search opts \<longrightarrow>
        (\<exists>loc. Tools (buildResponseParams msgs opts) = Some [WebSearch ''web_search_preview'' loc]))
   \<and> (Search opts \<and> SearchLocation opts = Some tz \<and> tz \<noteq> [] \<longrightarrow>
        Tools (buildResponseParams msgs opts)
          = Some [WebSearch ''web_search_preview''
                    (Some \<lparr>LocationType = ''approximate'', Timezone = Some tz\<rparr>)])
   \<and> (Search opts \<and> (SearchLocation opts = None \<or> SearchLocation opts = Some []) \<longrightarrow>
        Tools (buildResponseParams msgs opts) = Some [WebSearch ''web_search_preview'' None])
   \<and> Tools (buildResponseParams msgs opts) \<noteq> Some []"
  by (auto simp: buildResponseParams_def)

theorem buildResponseParams_tools_witness:
  "Tools (buildResponseParams [\<lparr>Role = ''user'', Content = ''Hello''\<rparr>]
      \<lparr>Model = ''gpt-4o'', Temperature = 0.7 :: real, TopP = 0, MaxTokens = None, Raw = False,
       Search = False, SearchLocation = None\<rparr>) = None
   \<and> Tools (buildResponseParams [\<lparr>Role = ''user'', Content = ''What is the weather today?''\<rparr>]
      \<lparr>Model = ''gpt-4o'', Temperature = 0.7 :: real, TopP = 0, MaxTokens = None, Raw = False,
       Search = True, SearchLocation = Some []\<rparr>)
     = Some [WebSearch ''web_search_preview'' None]
   \<and> Tools (buildResponseParams
      [\<lparr>Role = ''user'', Content = ''What is the weather in San Francisco?''\<rparr>]
      \<lparr>Model = ''gpt-4o'', Temperature = 0.7 :: real, TopP = 0, MaxTokens = None, Raw = False,
       Search = True, SearchLocation = Some ''America/Los_Angeles''\<rparr>)
     = Some [WebSearch ''web_search_preview''
          (Some \<lparr>LocationType = ''approximate'', Timezone = Some ''America/Los_Angeles''\<rparr>)]"
proof -
  let ?o1 = "\<lparr>Model = ''gpt-4o'', Temperature = 0.7 :: real, TopP = 0, MaxTokens = None,
       Raw = False, Search = False, SearchLocation = None\<rparr>"
  let ?o2 = "\<lparr>Model = ''gpt-4o'', Temperature = 0.7 :: real, TopP = 0, MaxTokens = None,
       Raw = False, Search = True, SearchLocation = Some []\<rparr>"
  let ?o3 = "\<lparr>Model = ''gpt-4o'', Temperature = 0.7 :: real, TopP = 0, MaxTokens = None,
       Raw = False, Search = True, SearchLocation = Some ''America/Los_Angeles''\<rparr>"
  have h1: "\<not> Search ?o1"
    by simp
  have h2: "Search ?o2 \<and> (SearchLocation ?o2 = None \<or> SearchLocation ?o2 = Some [])"
    by simp
  have h3: "Search ?o3 \<and> SearchLocation ?o3 = Some ''America/Los_Angeles''
      \<and> ''America/Los_Angeles'' \<noteq> []"
    by simp
  show ?thesis
    by (intro conjI)
      (rule buildResponseParams_tools [where opts = ?o1, THEN conjunct1, THEN mp, OF h1],
       rule buildResponseParams_tools [where opts = ?o2,
         THEN conjunct2, THEN conjunct2, THEN conjunct2, THEN conjunct1, THEN mp, OF h2],
       rule buildResponseParams_tools [where opts = ?o3 and tz = "''America/Los_Angeles''",
         THEN conjunct2, THEN conjunct2, THEN conjunct1, THEN mp, OF h3])
qed

text \<open>
  C5. The maxOutputTokens of the built request is present iff maxTokens is present and
  nonzero, and then it is that value: 50 for 50. It is absent when maxTokens is not
  given or zero, and it is never a present zero.
\<close>

theorem buildResponseParams_maxOutputTokens:
  "(MaxOutputTokens (buildResponseParams msgs opts) \<noteq> None
      \<longleftrightarrow> (\<exists>n. MaxTokens opts = Some n \<and> n \<noteq> 0))
   \<and> (MaxTokens opts = Some n \<and> n \<noteq> 0 \<longrightarrow>
        MaxOutputTokens (buildResponseParams msgs opts) = Some n)
   \<and> (MaxTokens opts = Some 50 \<longrightarrow>
        MaxOutputTokens (buildResponseParams msgs opts) = Some 50)
   \<and> (MaxTokens opts = None \<or> MaxTokens opts = Some 0 \<longrightarrow>
        MaxOutputTokens (buildResponseParams msgs opts) = None)
   \<and> MaxOutputTokens (buildResponseParams msgs opts) \<noteq> Some 0"
  by (auto simp: buildResponseParams_def split: option.splits)

theorem buildResponseParams_maxOutputTokens_witness:
  "MaxOutputTokens (buildResponseParams
      [\<lparr>Role = ''User'', Content = ''My msg''\<rparr>, \<lparr>Role = ''User'', Content = ''My msg''\<rparr>]
      \<lparr>Model = [], Temperature = 0.8 :: real, TopP = 0.9, MaxTokens = Some 50, Raw = False,
       Search = False, SearchLocation = None\<rparr>) = Some 50
   \<and> MaxOutputTokens (buildResponseParams
      [\<lparr>Role = ''User'', Content = ''My msg''\<rparr>, \<lparr>Role = ''User'', Content = ''My msg''\<rparr>]
      \<lparr>Model = [], Temperature = 0.8 :: real, TopP = 0.9, MaxTokens = None, Raw = False,
       Search = False, SearchLocation = None\<rparr>) = None
   \<and> MaxOutputTokens (buildResponseParams
      [\<lparr>Role = ''User'', Content = ''My msg''\<rparr>, \<lparr>Role = ''User'', Content = ''My msg''\<rparr>]
      \<lparr>Model = [], Temperature = 0.8 :: real, TopP = 0.9, MaxTokens = Some 0, Raw = False,
       Search = False, SearchLocation = None\<rparr>) = None"
proof -
  let ?o1 = "\<lparr>Model = [], Temperature = 0.8 :: real, TopP = 0.9, MaxTokens = Some 50,
       Raw = False, Search = False, SearchLocation = None\<rparr>"
  let ?o2 = "\<lparr>Model = [], Temperature = 0.8 :: real, TopP = 0.9, MaxTokens = None,
       Raw = False, Search = False, SearchLocation = None\<rparr>"
  let ?o3 = "\<lparr>Model = [], Temperature = 0.8 :: real, TopP = 0.9, MaxTokens = Some 0,
       Raw = False, Search = False, SearchLocation = None\<rparr>"
  have h1: "MaxTokens ?o1 = Some 50"
    by simp
  have h2: "MaxTokens ?o2 = None \<or> MaxTokens ?o2 = Some 0"
    by simp
  have h3: "MaxTokens ?o3 = None \<or> MaxTokens ?o3 = Some 0"
    by simp
  show ?thesis
    by (intro conjI)
      (rule buildResponseParams_maxOutputTokens [where opts = ?o1,
         THEN conjunct2, THEN conjunct2, THEN conjunct1, THEN mp, OF h1],
       rule buildResponseParams_maxOutputTokens [where opts = ?o2,
         THEN conjunct2, THEN conjunct2, THEN conjunct2, THEN conjunct1, THEN mp, OF h2],
       rule buildResponseParams_maxOutputTokens [where opts = ?o3,
         THEN conjunct2, THEN conjunct2, THEN conjunct2, THEN conjunct1, THEN mp, OF h3])
qed

end
